theory Spec2Isabelle
  imports Complex_Main "HOL-Library.Monad_Syntax"
begin

section \<open>Data model of the road network (igp2/opendrive/map.py)\<close>

text \<open>
  Exceptions of the Python code are values; a method that can raise returns
  \<open>error + 'a\<close>, with \<open>Inl\<close> the exception.
\<close>

datatype error = RuntimeError | AssertionError | ValueError | KeyError | AttributeError | IndexError

type_synonym point = "real \<times> real"

type_synonym linestring = "point list"

text \<open>
  A shapely geometry as the map reads it: the flag \<open>is_empty\<close> and the
  operation \<open>distance(point)\<close>. Floating point numbers are modelled as reals.
\<close>

record geometry =
  g_is_empty :: bool
  g_distance :: "point \<Rightarrow> real"

datatype LaneTypes = DRIVING | SHOULDER | SIDEWALK | BORDER | NONE_TYPE

text \<open>
  A \<open>Lane\<close> object: \<open>lane.parent_road.id\<close>, \<open>lane.id\<close>, the index of its lane
  section, \<open>lane.boundary\<close> (which may be \<open>None\<close>) and \<open>lane.type\<close>.
\<close>

record lane =
  l_road_id :: int
  l_id :: int
  l_section_idx :: nat
  l_boundary :: "geometry option"
  l_type :: LaneTypes

record lane_section =
  ls_all_lanes :: "lane list"
  ls_right_lanes :: "lane list"

record junction_group =
  jg_id :: int
  jg_type :: string

record junction =
  j_id :: int
  j_junction_group :: "junction_group option"

text \<open>
  The element of a road link is a \<open>Road\<close> or a \<open>Junction\<close> object. A road object
  can reach itself through its links, so a linked road is a reference (its id)
  into the store of road objects; a reference always resolves, as a Python
  object reference does.
\<close>

datatype element = RoadElement int | JunctionElement junction

record road =
  r_id :: int
  r_boundary :: "geometry option"
  r_drivable :: bool
  r_midline :: linestring
  r_midline_project :: "point \<Rightarrow> real"
  r_plan_view_calc :: "real \<Rightarrow> point \<times> real"
  r_junction :: "junction option"
  r_predecessor :: "element option"
  r_successor :: "element option"
  r_lane_sections :: "lane_section list"

text \<open>The \<open>Map\<close> object: its dictionary of roads, in insertion order.\<close>

record opendrive_map =
  roads :: "(int \<times> road) list"

text \<open>A \<open>Goal\<close>: its \<open>center\<close> and its operation \<open>distance(curve)\<close>.\<close>

record goal =
  goal_center :: point
  goal_distance :: "linestring \<Rightarrow> real"

definition ROAD_PRECISION_ERROR :: real where
  "ROAD_PRECISION_ERROR = 1 / 10 ^ 8"

definition LANE_PRECISION_ERROR :: real where
  "LANE_PRECISION_ERROR = 1 / 10 ^ 8"

section \<open>Spatial queries\<close>

definition within_distance :: "geometry option \<Rightarrow> point \<Rightarrow> real \<Rightarrow> bool" where
  "within_distance boundary point max_distance =
     (case boundary of None \<Rightarrow> False | Some b \<Rightarrow> g_distance b point < max_distance)"

definition roads_at :: "opendrive_map \<Rightarrow> point \<Rightarrow> bool \<Rightarrow> real option \<Rightarrow> road list" where
  "roads_at m point drivable max_distance =
     (let md = (case max_distance of None \<Rightarrow> ROAD_PRECISION_ERROR | Some d \<Rightarrow> d)
      in filter (\<lambda>road. within_distance (r_boundary road) point md \<and>
                         \<not> (drivable \<and> \<not> r_drivable road))
                (map snd (roads m)))"

text \<open>
  Modelled from the spec: equality of \<open>Lane\<close> objects, which \<open>lane not in candidates\<close>
  uses; the class \<open>Lane\<close> is defined in igp2/opendrive/elements. A lane's identity is its
  road id, lane id and section index, and two lanes are equal when their
  identities are.
\<close>

definition lane_identity :: "lane \<Rightarrow> int \<times> int \<times> nat" where
  "lane_identity l = (l_road_id l, l_id l, l_section_idx l)"

definition lane_eq :: "lane \<Rightarrow> lane \<Rightarrow> bool" where
  "lane_eq a b = (lane_identity a = lane_identity b)"

definition lanes_at_accept :: "point \<Rightarrow> bool \<Rightarrow> real \<Rightarrow> lane list \<Rightarrow> lane \<Rightarrow> bool" where
  "lanes_at_accept point drivable_only max_distance candidates l =
     (case l_boundary l of
        None \<Rightarrow> False
      | Some b \<Rightarrow>
          \<not> g_is_empty b \<and>
          g_distance b point < max_distance \<and>
          (\<not> drivable_only \<or> l_type l = DRIVING) \<and>
          \<not> list_ex (\<lambda>c. lane_eq c l) candidates)"

definition lanes_at_lane :: "point \<Rightarrow> bool \<Rightarrow> real \<Rightarrow> lane list \<Rightarrow> lane \<Rightarrow> lane list" where
  "lanes_at_lane point drivable_only max_distance candidates l =
     (if lanes_at_accept point drivable_only max_distance candidates l
      then candidates @ [l] else candidates)"

text \<open>\<open>Map.lanes_at\<close>: the three nested loops over roads, lane sections and lanes.\<close>

definition lanes_at :: "opendrive_map \<Rightarrow> point \<Rightarrow> bool \<Rightarrow> real option \<Rightarrow> lane list" where
  "lanes_at m point drivable_only max_distance =
     (let md = (case max_distance of None \<Rightarrow> LANE_PRECISION_ERROR | Some d \<Rightarrow> d)
      in foldl (\<lambda>candidates road.
           foldl (\<lambda>candidates section.
             foldl (lanes_at_lane point drivable_only md) candidates (ls_all_lanes section))
             candidates (r_lane_sections road))
           [] (roads_at m point False (Some md)))"

text \<open>Python's \<open>x % y\<close> on floats, for a positive \<open>y\<close>.\<close>

definition py_mod :: "real \<Rightarrow> real \<Rightarrow> real" where
  "py_mod x y = x - y * of_int \<lfloor>x / y\<rfloor>"

text \<open>\<open>_, angle = road.plan_view.calc(road.midline.project(point))\<close>\<close>

definition road_angle :: "road \<Rightarrow> point \<Rightarrow> real" where
  "road_angle road point = snd (r_plan_view_calc road (r_midline_project road point))"

text \<open>
  The angular difference that one iteration of the loop of \<open>best_road_at\<close>
  computes. \<open>normalise_angle\<close> is imported from igp2/opendrive/elements/geometry
  and is a parameter.
\<close>

definition heading_diff :: "(real \<Rightarrow> real) \<Rightarrow> road \<Rightarrow> point \<Rightarrow> real \<Rightarrow> real" where
  "heading_diff normalise_angle road point original_heading =
     (let angle = road_angle road point;
          heading = original_heading;
          (angle, heading) =
            (if r_junction road \<noteq> None then
               (if list_all (\<lambda>section. ls_right_lanes section = []) (r_lane_sections road)
                then (normalise_angle (angle + pi), heading)
                else (angle, heading))
             else if \<bar>original_heading - angle\<bar> > pi / 2
                  then (angle, normalise_angle (original_heading + pi))
                  else (angle, heading))
      in \<bar>py_mod (heading - angle + pi) (2 * pi) - pi\<bar>)"

text \<open>\<open>best_diff\<close> starts as \<open>np.inf\<close>, here \<open>None\<close>; a computed difference is finite.\<close>

definition less_best_diff :: "real \<Rightarrow> real option \<Rightarrow> bool" where
  "less_best_diff d best_diff = (case best_diff of None \<Rightarrow> True | Some b \<Rightarrow> d < b)"

text \<open>One iteration of the loop of \<open>best_road_at\<close> on the pair \<open>(best, best_diff)\<close>.\<close>

definition best_road_at_step ::
  "(real \<Rightarrow> real) \<Rightarrow> point \<Rightarrow> real \<Rightarrow> bool \<Rightarrow> goal option \<Rightarrow>
   road option \<times> real option \<Rightarrow> road \<Rightarrow> road option \<times> real option" where
  "best_road_at_step normalise_angle point original_heading drivable gl st road =
     (if drivable \<and> \<not> r_drivable road then st
      else
        let d = heading_diff normalise_angle road point original_heading
        in (case gl of
              Some g \<Rightarrow>
                (case fst st of
                   Some best \<Rightarrow>
                     (if goal_distance g (r_midline road) < goal_distance g (r_midline best)
                      then (Some road, Some d) else st)
                 | None \<Rightarrow> (if less_best_diff d (snd st) then (Some road, Some d) else st))
            | None \<Rightarrow> (if less_best_diff d (snd st) then (Some road, Some d) else st)))"

text \<open>\<open>Map.best_road_at\<close>; \<open>None\<close> is Python's \<open>None\<close>.\<close>

definition best_road_at ::
  "(real \<Rightarrow> real) \<Rightarrow> opendrive_map \<Rightarrow> point \<Rightarrow> real option \<Rightarrow> bool \<Rightarrow> goal option \<Rightarrow>
   road option" where
  "best_road_at normalise_angle m point heading drivable gl =
     (let rs = roads_at m point False None
      in if length rs = 0 then None
         else if length rs = 1 \<or> heading = None then Some (hd rs)
         else fst (foldl (best_road_at_step normalise_angle point
                            (normalise_angle (the heading)) drivable gl)
                         (None, None) rs))"

text \<open>One iteration of the inner loop of \<open>best_lane_at\<close> on \<open>best\<close>.\<close>

definition best_lane_at_eligible :: "point \<Rightarrow> bool \<Rightarrow> real \<Rightarrow> lane \<Rightarrow> bool" where
  "best_lane_at_eligible point drivable_only max_distance l =
     (case l_boundary l of
        None \<Rightarrow> False
      | Some b \<Rightarrow>
          l_id l \<noteq> 0 \<and> (\<not> drivable_only \<or> l_type l = DRIVING) \<and>
          g_distance b point < max_distance)"

definition lane_score ::
  "(real \<Rightarrow> real) \<Rightarrow> point \<Rightarrow> real option \<Rightarrow> real \<Rightarrow> lane \<Rightarrow> real" where
  "lane_score normalise_angle point heading original_angle l =
     (let distance = (case l_boundary l of None \<Rightarrow> 0 | Some b \<Rightarrow> g_distance b point);
          angle_diff =
            (case heading of
               None \<Rightarrow> 0
             | Some h \<Rightarrow>
                 let angle = (if l_id l > 0 then normalise_angle (original_angle + pi)
                              else original_angle)
                 in \<bar>h - angle\<bar>)
      in angle_diff + distance)"

definition best_lane_at_step ::
  "(real \<Rightarrow> real) \<Rightarrow> point \<Rightarrow> real option \<Rightarrow> bool \<Rightarrow> real \<Rightarrow> real \<Rightarrow>
   (real \<times> lane) option \<Rightarrow> lane \<Rightarrow> (real \<times> lane) option" where
  "best_lane_at_step normalise_angle point heading drivable_only max_distance original_angle best l =
     (if best_lane_at_eligible point drivable_only max_distance l then
        let score = lane_score normalise_angle point heading original_angle l
        in (case best of
              None \<Rightarrow> Some (score, l)
            | Some b \<Rightarrow> if fst b > score then Some (score, l) else best)
      else best)"

text \<open>\<open>Map.best_lane_at\<close>\<close>

definition best_lane_at ::
  "(real \<Rightarrow> real) \<Rightarrow> opendrive_map \<Rightarrow> point \<Rightarrow> real option \<Rightarrow> bool \<Rightarrow> real option \<Rightarrow>
   goal option \<Rightarrow> lane option" where
  "best_lane_at normalise_angle m point heading drivable_only max_distance gl =
     (let md = (case max_distance of None \<Rightarrow> LANE_PRECISION_ERROR | Some d \<Rightarrow> d)
      in case best_road_at normalise_angle m point heading True gl of
           None \<Rightarrow> None
         | Some road \<Rightarrow>
             let original_angle = road_angle road point;
                 best = foldl (\<lambda>best section.
                          foldl (best_lane_at_step normalise_angle point heading drivable_only
                                   md original_angle)
                                best (ls_all_lanes section))
                          None (r_lane_sections road)
             in map_option snd best)"

section \<open>Roundabout membership\<close>

definition is_roundabout :: "junction_group option \<Rightarrow> bool" where
  "is_roundabout g = (case g of None \<Rightarrow> False | Some jg \<Rightarrow> jg_type jg = ''roundabout'')"

definition same_group :: "junction_group option \<Rightarrow> junction_group option \<Rightarrow> bool" where
  "same_group g junction_grp = (g \<noteq> None \<and> g = junction_grp)"

text \<open>
  \<open>Map.road_in_roundabout\<close>. The recursion of the source has no bound, so the
  function is partial: \<open>None\<close> is a call that does not return. \<open>a and b\<close>
  evaluates \<open>b\<close> only when \<open>a\<close> is true.
\<close>

partial_function (option) road_in_roundabout :: "(int \<Rightarrow> road) \<Rightarrow> road \<Rightarrow> bool option" where
  "road_in_roundabout deref road =
     (case r_predecessor road of
        None \<Rightarrow> Some False
      | Some predecessor \<Rightarrow>
     (case r_successor road of
        None \<Rightarrow> Some False
      | Some successor \<Rightarrow>
     (case r_junction road of
        Some junction \<Rightarrow>
          (if is_roundabout (j_junction_group junction) then
             (case predecessor of
                RoadElement p \<Rightarrow>
                  (case successor of
                     RoadElement s \<Rightarrow>
                       do { a \<leftarrow> road_in_roundabout deref (deref p);
                            if a then road_in_roundabout deref (deref s) else Some False }
                   | JunctionElement sj \<Rightarrow>
                       (if same_group (j_junction_group sj) (j_junction_group junction)
                        then road_in_roundabout deref (deref p) else Some False))
              | JunctionElement pj \<Rightarrow>
                  (case successor of
                     RoadElement s \<Rightarrow>
                       (if same_group (j_junction_group pj) (j_junction_group junction)
                        then road_in_roundabout deref (deref s) else Some False)
                   | JunctionElement sj \<Rightarrow>
                       Some (same_group (j_junction_group pj) (j_junction_group junction) \<and>
                             same_group (j_junction_group sj) (j_junction_group junction))))
           else Some False)
      | None \<Rightarrow>
          (case predecessor of
             RoadElement p \<Rightarrow> Some False
           | JunctionElement pj \<Rightarrow>
               (case successor of
                  RoadElement s \<Rightarrow> Some False
                | JunctionElement sj \<Rightarrow>
                    Some (j_junction_group pj = j_junction_group sj \<and>
                          j_junction_group sj \<noteq> None \<and>
                          is_roundabout (j_junction_group pj) \<and>
                          is_roundabout (j_junction_group sj)))))))"

text \<open>
  \<open>Map.road_in_roundabout\<close> with at most \<open>n\<close> nested calls: \<open>None\<close> when the
  nesting would go beyond \<open>n\<close>, which is where the interpreter raises
  \<open>RecursionError\<close> when \<open>n\<close> is the room its recursion limit leaves.
\<close>

fun road_in_roundabout_depth :: "nat \<Rightarrow> (int \<Rightarrow> road) \<Rightarrow> road \<Rightarrow> bool option" where
  "road_in_roundabout_depth 0 deref road = None"
| "road_in_roundabout_depth (Suc n) deref road =
     (case r_predecessor road of
        None \<Rightarrow> Some False
      | Some predecessor \<Rightarrow>
     (case r_successor road of
        None \<Rightarrow> Some False
      | Some successor \<Rightarrow>
     (case r_junction road of
        Some junction \<Rightarrow>
          (if is_roundabout (j_junction_group junction) then
             (case predecessor of
                RoadElement p \<Rightarrow>
                  (case successor of
                     RoadElement s \<Rightarrow>
                       do { a \<leftarrow> road_in_roundabout_depth n deref (deref p);
                            if a then road_in_roundabout_depth n deref (deref s) else Some False }
                   | JunctionElement sj \<Rightarrow>
                       (if same_group (j_junction_group sj) (j_junction_group junction)
                        then road_in_roundabout_depth n deref (deref p) else Some False))
              | JunctionElement pj \<Rightarrow>
                  (case successor of
                     RoadElement s \<Rightarrow>
                       (if same_group (j_junction_group pj) (j_junction_group junction)
                        then road_in_roundabout_depth n deref (deref s) else Some False)
                   | JunctionElement sj \<Rightarrow>
                       Some (same_group (j_junction_group pj) (j_junction_group junction) \<and>
                             same_group (j_junction_group sj) (j_junction_group junction))))
           else Some False)
      | None \<Rightarrow>
          (case predecessor of
             RoadElement p \<Rightarrow> Some False
           | JunctionElement pj \<Rightarrow>
               (case successor of
                  RoadElement s \<Rightarrow> Some False
                | JunctionElement sj \<Rightarrow>
                    Some (j_junction_group pj = j_junction_group sj \<and>
                          j_junction_group sj \<noteq> None \<and>
                          is_roundabout (j_junction_group pj) \<and>
                          is_roundabout (j_junction_group sj)))))))"

text \<open>
  \<open>Map.in_roundabout\<close>: the outer \<open>option\<close> is whether the call returns, the sum
  is the exception or the value.
\<close>

definition in_roundabout ::
  "(real \<Rightarrow> real) \<Rightarrow> (int \<Rightarrow> road) \<Rightarrow> opendrive_map \<Rightarrow> point \<Rightarrow> real option \<Rightarrow>
   (error + bool) option" where
  "in_roundabout normalise_angle deref m point heading =
     (case best_road_at normalise_angle m point heading True None of
        None \<Rightarrow> Some (Inl ValueError)
      | Some road \<Rightarrow> map_option Inr (road_in_roundabout deref road))"

section \<open>Agents (igp2/agents/macro_agent.py, igp2/agents/traffic_agent.py)\<close>

record agent_state =
  st_position :: point
  st_heading :: real
  st_velocity :: real
  st_time :: nat

text \<open>A frame is a dictionary from agent ids to agent states.\<close>

type_synonym frame = "(int \<times> agent_state) list"

record observation =
  obs_frame :: frame
  obs_scenario_map :: opendrive_map

text \<open>\<open>ip.Action(acceleration, steer_angle)\<close>\<close>

record action =
  acceleration :: real
  steer_angle :: real

text \<open>Keyword arguments of a macro action: a dictionary with string keys.\<close>

type_synonym kwargs = "(string \<times> point) list"

text \<open>
  What \<open>isinstance(new_macro_action, type(ip.Exit))\<close> reads of Python's object
  model. \<open>new_macro_action\<close> and \<open>ip.Exit\<close> are classes. For a class \<open>C\<close>,
  \<open>type(C)\<close> is the metaclass of \<open>C\<close>: \<open>type\<close> for a plain class, \<open>ABCMeta\<close> for a
  class that derives from \<open>abc.ABC\<close>. \<open>isinstance(x, M)\<close> holds when \<open>type(x)\<close> is
  \<open>M\<close> or a subclass of \<open>M\<close>, and every metaclass is a subclass of \<open>type\<close>.
  The macro action classes are defined in other modules: a class is given by
  its name, the names of the classes it derives from, its metaclass, its static
  method \<open>get_possible_args\<close> and its constructor (with \<open>agent_id\<close>, \<open>frame\<close>,
  \<open>scenario_map\<close>, \<open>open_loop\<close> and the keyword arguments). The instances are of
  a type \<open>'m\<close>.
\<close>

datatype metaclass = PyType | ABCMeta

record 'm macro_class =
  cls_name :: string
  cls_bases :: "string list"
  cls_metaclass :: metaclass
  cls_get_possible_args :: "agent_state \<Rightarrow> opendrive_map \<Rightarrow> point \<Rightarrow> kwargs list"
  cls_new :: "int \<Rightarrow> frame \<Rightarrow> opendrive_map \<Rightarrow> bool \<Rightarrow> kwargs \<Rightarrow> 'm"

definition py_type :: "'m macro_class \<Rightarrow> metaclass" where
  "py_type c = cls_metaclass c"

definition metaclass_subclass :: "metaclass \<Rightarrow> metaclass \<Rightarrow> bool" where
  "metaclass_subclass a b = (a = b \<or> b = PyType)"

definition py_isinstance :: "'m macro_class \<Rightarrow> metaclass \<Rightarrow> bool" where
  "py_isinstance c mc = metaclass_subclass (py_type c) mc"

text \<open>The requested type is an exit maneuver: it is \<open>Exit\<close> or derives from it.\<close>

definition is_exit_maneuver :: "'m macro_class \<Rightarrow> 'm macro_class \<Rightarrow> bool" where
  "is_exit_maneuver Exit c = (cls_name c = cls_name Exit \<or> cls_name Exit \<in> set (cls_bases c))"

text \<open>
  The fields of \<open>MacroAgent\<close> and \<open>TrafficAgent\<close> that the methods below read and
  write: \<open>agent_id\<close>, \<open>_goal\<close>, \<open>_current_macro\<close> and \<open>_macro_actions\<close>.
\<close>

record 'm agent =
  agent_id :: int
  a_goal :: "goal option"
  a_current_macro :: "'m option"
  a_macro_actions :: "'m list"

text \<open>
  A method returns the exception or the value, together with the agent as the
  call leaves it: what a method assigns before it raises stays assigned.
\<close>

type_synonym ('a, 'm) result = "(error + 'a) \<times> 'm agent"

definition and_then ::
  "('a, 'm) result \<Rightarrow> ('a \<Rightarrow> 'm agent \<Rightarrow> ('b, 'm) result) \<Rightarrow> ('b, 'm) result" where
  "and_then r k = (case r of (Inl e, self) \<Rightarrow> (Inl e, self) | (Inr v, self) \<Rightarrow> k v self)"

subsection \<open>MacroAgent\<close>

text \<open>\<open>MacroAgent.done\<close>; the completion predicate of a macro action is a parameter.\<close>

definition macro_agent_done ::
  "('m \<Rightarrow> observation \<Rightarrow> bool) \<Rightarrow> 'm agent \<Rightarrow> observation \<Rightarrow> error + bool" where
  "macro_agent_done ma_done self obs =
     (case a_current_macro self of
        None \<Rightarrow> Inl AssertionError
      | Some current \<Rightarrow> Inr (ma_done current obs))"

definition euclidean_norm :: "point \<Rightarrow> real" where
  "euclidean_norm v = sqrt ((fst v)\<^sup>2 + (snd v)\<^sup>2)"

definition point_diff :: "point \<Rightarrow> point \<Rightarrow> point" where
  "point_diff a b = (fst a - fst b, snd a - snd b)"

text \<open>\<open>np.argmin\<close>: the first index of a least element.\<close>

fun argmin :: "real list \<Rightarrow> nat" where
  "argmin [] = 0"
| "argmin [x] = 0"
| "argmin (x # xs) = (let i = argmin xs in if x \<le> xs ! i then 0 else Suc i)"

text \<open>
  The narrowing of the candidates to the turn target closest to the goal center.
  With no \<open>turn_target\<close> among the candidates the array is empty and numpy raises.
\<close>

definition turn_targets :: "kwargs list \<Rightarrow> point list" where
  "turn_targets possible_args =
     concat (map (\<lambda>t. case map_of t ''turn_target'' of None \<Rightarrow> [] | Some p \<Rightarrow> [p]) possible_args)"

definition narrow_to_closest :: "point \<Rightarrow> kwargs list \<Rightarrow> error + kwargs list" where
  "narrow_to_closest center possible_args =
     (let ps = turn_targets possible_args
      in if ps = [] then Inl ValueError
         else let closest = argmin (map (\<lambda>p. euclidean_norm (point_diff p center)) ps)
              in Inr [[(''turn_target'', ps ! closest)]])"

definition narrowing_applies :: "'m macro_class \<Rightarrow> 'm macro_class \<Rightarrow> kwargs list \<Rightarrow> bool" where
  "narrowing_applies Exit new_macro_action possible_args =
     (length possible_args > 1 \<and> py_isinstance new_macro_action (py_type Exit))"

text \<open>The loop that constructs a macro action from each candidate in turn.\<close>

fun install_candidates ::
  "'m macro_class \<Rightarrow> frame \<Rightarrow> opendrive_map \<Rightarrow> kwargs list \<Rightarrow> 'm agent \<Rightarrow> 'm agent" where
  "install_candidates new_macro_action fr scenario_map [] self = self"
| "install_candidates new_macro_action fr scenario_map (kw # rest) self =
     install_candidates new_macro_action fr scenario_map rest
       (self\<lparr>a_current_macro :=
          Some (cls_new new_macro_action (agent_id self) fr scenario_map False kw)\<rparr>)"

text \<open>\<open>MacroAgent.update_macro_action\<close>; \<open>Exit\<close> is the class \<open>ip.Exit\<close>.\<close>

definition update_macro_action ::
  "'m macro_class \<Rightarrow> 'm agent \<Rightarrow> 'm macro_class \<Rightarrow> observation \<Rightarrow> (unit, 'm) result" where
  "update_macro_action Exit self new_macro_action obs =
     (let fr = obs_frame obs;
          scenario_map = obs_scenario_map obs
      in case map_of fr (agent_id self) of
           None \<Rightarrow> (Inl KeyError, self)
         | Some state \<Rightarrow>
        (case a_goal self of
           None \<Rightarrow> (Inl AttributeError, self)
         | Some g \<Rightarrow>
             let possible_args =
                   cls_get_possible_args new_macro_action state scenario_map (goal_center g)
             in (case (if narrowing_applies Exit new_macro_action possible_args
                       then narrow_to_closest (goal_center g) possible_args
                       else Inr possible_args) of
                   Inl e \<Rightarrow> (Inl e, self)
                 | Inr args \<Rightarrow>
                     (Inr (), install_candidates new_macro_action fr scenario_map args self))))"

subsection \<open>TrafficAgent\<close>

text \<open>
  \<open>TrafficAgent.set_destination\<close>; the planner \<open>self._astar.search\<close> is a parameter
  that gives the list of plans found (the second component of its result).
\<close>

definition set_destination ::
  "(int \<Rightarrow> frame \<Rightarrow> goal option \<Rightarrow> opendrive_map \<Rightarrow> 'm list list) \<Rightarrow>
   'm agent \<Rightarrow> observation \<Rightarrow> goal option \<Rightarrow> (unit, 'm) result" where
  "set_destination search self obs gl =
     (let self = (case gl of None \<Rightarrow> self | Some g \<Rightarrow> self\<lparr>a_goal := Some g\<rparr>);
          actions = search (agent_id self) (obs_frame obs) (a_goal self) (obs_scenario_map obs)
      in if length actions = 0 then (Inl RuntimeError, self)
         else (Inr (), self\<lparr>a_macro_actions := hd actions\<rparr>))"

text \<open>\<open>TrafficAgent.done\<close>\<close>

definition traffic_agent_done ::
  "('m \<Rightarrow> observation \<Rightarrow> bool) \<Rightarrow> 'm agent \<Rightarrow> observation \<Rightarrow> error + bool" where
  "traffic_agent_done ma_done self obs =
     (if length (a_macro_actions self) = 0 then macro_agent_done ma_done self obs
      else Inr False)"

text \<open>\<open>TrafficAgent._advance_macro\<close>: \<open>pop(0)\<close> raises on an empty list.\<close>

definition advance_macro :: "'m agent \<Rightarrow> (unit, 'm) result" where
  "advance_macro self =
     (case a_macro_actions self of
        [] \<Rightarrow> (Inl IndexError, self)
      | first # rest \<Rightarrow> (Inr (), self\<lparr>a_current_macro := Some first, a_macro_actions := rest\<rparr>))"

text \<open>
  \<open>self._current_macro.next_action(observation)\<close>: the macro action gives the
  action and is left in a new state.
\<close>

definition current_macro_next_action ::
  "('m \<Rightarrow> observation \<Rightarrow> action \<times> 'm) \<Rightarrow> observation \<Rightarrow> 'm agent \<Rightarrow> (action, 'm) result" where
  "current_macro_next_action ma_next_action obs self =
     (case a_current_macro self of
        None \<Rightarrow> (Inl AttributeError, self)
      | Some current \<Rightarrow>
          (Inr (fst (ma_next_action current obs)),
           self\<lparr>a_current_macro := Some (snd (ma_next_action current obs))\<rparr>))"

text \<open>\<open>TrafficAgent.next_action\<close>\<close>

definition next_action ::
  "(int \<Rightarrow> frame \<Rightarrow> goal option \<Rightarrow> opendrive_map \<Rightarrow> 'm list list) \<Rightarrow>
   ('m \<Rightarrow> observation \<Rightarrow> bool) \<Rightarrow> ('m \<Rightarrow> observation \<Rightarrow> action \<times> 'm) \<Rightarrow>
   'm agent \<Rightarrow> observation \<Rightarrow> (action, 'm) result" where
  "next_action search ma_done ma_next_action self obs =
     and_then
       (if a_current_macro self = None then
          and_then
            (if length (a_macro_actions self) = 0 then set_destination search self obs None
             else (Inr (), self))
            (\<lambda>_ self. advance_macro self)
        else (Inr (), self))
       (\<lambda>_ self.
          case a_current_macro self of
            None \<Rightarrow> (Inl AttributeError, self)
          | Some current \<Rightarrow>
              if ma_done current obs then
                (if length (a_macro_actions self) > 0 then
                   and_then (advance_macro self)
                     (\<lambda>_ self. current_macro_next_action ma_next_action obs self)
                 else (Inr \<lparr>acceleration = 0, steer_angle = 0\<rparr>, self))
              else current_macro_next_action ma_next_action obs self)"

text \<open>The calls of \<open>next_action\<close> on a sequence of observations, one after the other.\<close>

fun next_actions ::
  "(int \<Rightarrow> frame \<Rightarrow> goal option \<Rightarrow> opendrive_map \<Rightarrow> 'm list list) \<Rightarrow>
   ('m \<Rightarrow> observation \<Rightarrow> bool) \<Rightarrow> ('m \<Rightarrow> observation \<Rightarrow> action \<times> 'm) \<Rightarrow>
   'm agent \<Rightarrow> observation list \<Rightarrow> (error + action) list \<times> 'm agent" where
  "next_actions search ma_done ma_next_action self [] = ([], self)"
| "next_actions search ma_done ma_next_action self (obs # rest) =
     (let r = next_action search ma_done ma_next_action self obs;
          rs = next_actions search ma_done ma_next_action (snd r) rest
      in (fst r # fst rs, snd rs))"

section \<open>Statements of the specification\<close>

text \<open>
  A road of a roundabout junction: it lies in a junction whose junction group
  has the type \<open>roundabout\<close>. Only the call on such a road recurses.
\<close>

definition in_roundabout_junction :: "road \<Rightarrow> bool" where
  "in_roundabout_junction road =
     (\<exists>junction g. r_junction road = Some junction \<and> j_junction_group junction = Some g \<and>
                    jg_type g = ''roundabout'')"

text \<open>
  The road ids that the call on a road recurses into. The road has both links
  and lies in a junction of a roundabout group \<open>g\<close>. With two linked roads the
  call recurses into the predecessor, and into the successor when the call on
  the predecessor returns \<open>True\<close>; with a linked junction and a linked road it
  recurses into the road when the junction belongs to \<open>g\<close>.
\<close>

definition visited_links :: "(int \<Rightarrow> road) \<Rightarrow> road \<Rightarrow> int list" where
  "visited_links deref road =
     (case r_predecessor road of None \<Rightarrow> [] | Some predecessor \<Rightarrow>
     (case r_successor road of None \<Rightarrow> [] | Some successor \<Rightarrow>
     (case r_junction road of None \<Rightarrow> [] | Some junction \<Rightarrow>
     (case j_junction_group junction of None \<Rightarrow> [] | Some g \<Rightarrow>
        if jg_type g = ''roundabout'' then
          (case predecessor of
             RoadElement p \<Rightarrow>
               (case successor of
                  RoadElement s \<Rightarrow>
                    p # (if road_in_roundabout deref (deref p) = Some True then [s] else [])
                | JunctionElement sj \<Rightarrow> if j_junction_group sj = Some g then [p] else [])
           | JunctionElement pj \<Rightarrow>
               (case successor of
                  RoadElement s \<Rightarrow> if j_junction_group pj = Some g then [s] else []
                | JunctionElement sj \<Rightarrow> []))
        else []))))"

text \<open>
  The recursion is well founded on a store: a rank decreases from every road of
  the store to each road that the call on it recurses into.
\<close>

definition links_well_founded :: "(int \<Rightarrow> road) \<Rightarrow> (int \<Rightarrow> nat) \<Rightarrow> bool" where
  "links_well_founded deref rank =
     (\<forall>i. \<forall>j \<in> set (visited_links deref (deref i)). rank j < rank i)"

text \<open>
  The fold that the specification describes for \<open>best_road_at\<close> with a goal: the
  first accepted candidate is the running best, and a later candidate replaces
  it exactly when its midline is strictly closer to the goal.
\<close>

definition closer_to_goal :: "goal \<Rightarrow> road \<Rightarrow> road \<Rightarrow> road" where
  "closer_to_goal g best candidate =
     (if goal_distance g (r_midline candidate) < goal_distance g (r_midline best)
      then candidate else best)"

definition goal_fold :: "goal \<Rightarrow> road list \<Rightarrow> road option" where
  "goal_fold g candidates =
     (case candidates of [] \<Rightarrow> None | first # later \<Rightarrow> Some (foldl (closer_to_goal g) first later))"

text \<open>The roads at the point that pass the drivable filter, in insertion order.\<close>

definition drivable_candidates :: "opendrive_map \<Rightarrow> point \<Rightarrow> bool \<Rightarrow> road list" where
  "drivable_candidates m point drivable =
     filter (\<lambda>road. r_drivable road \<or> \<not> drivable) (roads_at m point False None)"

text \<open>All lanes of a road in the order of the nested loops.\<close>

definition road_lanes :: "road \<Rightarrow> lane list" where
  "road_lanes road = concat (map ls_all_lanes (r_lane_sections road))"

text \<open>
  The tolerance of a lane query: \<open>Map.LANE_PRECISION_ERROR\<close> unless the caller
  gives \<open>max_distance\<close>.
\<close>

definition default_distance :: "real option \<Rightarrow> real" where
  "default_distance max_distance =
     (case max_distance of None \<Rightarrow> LANE_PRECISION_ERROR | Some d \<Rightarrow> d)"

text \<open>
  The lanes that \<open>best_lane_at\<close> chooses from: boundary present, not the center
  lane, drivable when \<open>drivable_only\<close>, and closer than \<open>max_distance\<close>.
\<close>

definition eligible_lanes :: "point \<Rightarrow> bool \<Rightarrow> real option \<Rightarrow> road \<Rightarrow> lane list" where
  "eligible_lanes point drivable_only max_distance road =
     filter (best_lane_at_eligible point drivable_only (default_distance max_distance))
            (road_lanes road)"

text \<open>
  The lanes that the specification lets \<open>best_lane_at\<close> choose from: not the
  center lane, a driving lane when \<open>drivable_only\<close>, and with a boundary that is
  closer to the point than the tolerance.
\<close>

definition lane_in_reach :: "point \<Rightarrow> bool \<Rightarrow> real option \<Rightarrow> lane \<Rightarrow> bool" where
  "lane_in_reach point drivable_only max_distance l =
     (l_id l \<noteq> 0 \<and> (drivable_only \<longrightarrow> l_type l = DRIVING) \<and>
      (case l_boundary l of
         None \<Rightarrow> False
       | Some b \<Rightarrow> g_distance b point < default_distance max_distance))"

text \<open>
  The direction of a lane at the point: the tangent of the road at the
  projection of the point, turned by \<open>\<pi>\<close> (and normalised) for a lane on the
  left, whose id is positive.
\<close>

definition lane_direction :: "(real \<Rightarrow> real) \<Rightarrow> road \<Rightarrow> point \<Rightarrow> lane \<Rightarrow> real" where
  "lane_direction normalise_angle road point l =
     (if 0 < l_id l
      then normalise_angle (snd (r_plan_view_calc road (r_midline_project road point)) + pi)
      else snd (r_plan_view_calc road (r_midline_project road point)))"

text \<open>
  The plain sum of the angle difference and the boundary distance; without a
  heading the angle difference is 0.
\<close>

definition angle_plus_distance ::
  "(real \<Rightarrow> real) \<Rightarrow> road \<Rightarrow> point \<Rightarrow> real option \<Rightarrow> lane \<Rightarrow> real" where
  "angle_plus_distance normalise_angle road point heading l =
     (case heading of None \<Rightarrow> 0 | Some h \<Rightarrow> \<bar>h - lane_direction normalise_angle road point l\<bar>) +
     (case l_boundary l of None \<Rightarrow> 0 | Some b \<Rightarrow> g_distance b point)"




text \<open>
  The goal of the agent once \<open>set_destination\<close> has looked at its argument
  \<open>goal\<close>.
\<close>

definition new_goal :: "'m agent \<Rightarrow> goal option \<Rightarrow> goal option" where
  "new_goal self gl = (case gl of None \<Rightarrow> a_goal self | Some g \<Rightarrow> Some g)"

section \<open>Example networks and agents\<close>

text \<open>
  \<open>ring_store\<close>: two connector roads of a roundabout junction, each the
  predecessor and the successor of the other. \<open>chain_store\<close>: two plain roads
  linked in the same cyclic way, and a connector road 3 of the roundabout
  junction between them.
\<close>

definition roundabout_group :: junction_group where
  "roundabout_group = \<lparr>jg_id = 1, jg_type = ''roundabout''\<rparr>"

definition ring_junction :: junction where
  "ring_junction = \<lparr>j_id = 1, j_junction_group = Some roundabout_group\<rparr>"

definition link_road :: "int \<Rightarrow> junction option \<Rightarrow> element option \<Rightarrow> element option \<Rightarrow> road" where
  "link_road i j p s =
     \<lparr>r_id = i, r_boundary = None, r_drivable = False, r_midline = [],
      r_midline_project = (\<lambda>_. 0), r_plan_view_calc = (\<lambda>_. ((0, 0), 0)),
      r_junction = j, r_predecessor = p, r_successor = s, r_lane_sections = []\<rparr>"

definition ring_store :: "int \<Rightarrow> road" where
  "ring_store i =
     (if i = 1 then link_road 1 (Some ring_junction) (Some (RoadElement 2)) (Some (RoadElement 2))
      else link_road 2 (Some ring_junction) (Some (RoadElement 1)) (Some (RoadElement 1)))"

definition chain_store :: "int \<Rightarrow> road" where
  "chain_store i =
     (if i = 3 then link_road 3 (Some ring_junction) (Some (RoadElement 1)) (Some (RoadElement 2))
      else if i = 1 then link_road 1 None (Some (RoadElement 2)) (Some (RoadElement 2))
      else link_road 2 None (Some (RoadElement 1)) (Some (RoadElement 1)))"

text \<open>
  \<open>mixed_store\<close>: the plain roads 1 and 2, each the predecessor and the successor
  of the other; the connector road 3 of the roundabout junction between them;
  the connector roads 4 and 5, each the successor of the other, behind the
  dead-end road 6.
\<close>

definition mixed_store :: "int \<Rightarrow> road" where
  "mixed_store i =
     (if i = 3 then link_road 3 (Some ring_junction) (Some (RoadElement 1)) (Some (RoadElement 2))
      else if i = 4 then link_road 4 (Some ring_junction) (Some (RoadElement 6)) (Some (RoadElement 5))
      else if i = 5 then link_road 5 (Some ring_junction) (Some (RoadElement 6)) (Some (RoadElement 4))
      else if i = 6 then link_road 6 None None (Some (RoadElement 4))
      else if i = 1 then link_road 1 None (Some (RoadElement 2)) (Some (RoadElement 2))
      else link_road 2 None (Some (RoadElement 1)) (Some (RoadElement 1)))"

text \<open>
  A rank for \<open>mixed_store\<close>: the connector roads above the others.
\<close>

definition mixed_rank :: "int \<Rightarrow> nat" where
  "mixed_rank i = (if i = 3 \<or> i = 4 \<or> i = 5 then 1 else 0)"

text \<open>
  Example geometry: the vertical strip of half width \<open>w\<close> around the line
  \<open>x = c\<close>, and the midline of a road along that line.
\<close>

definition strip :: "real \<Rightarrow> real \<Rightarrow> geometry" where
  "strip c w = \<lparr>g_is_empty = False, g_distance = (\<lambda>p. max 0 (\<bar>fst p - c\<bar> - w))\<rparr>"

definition strip_road :: "int \<Rightarrow> real \<Rightarrow> real \<Rightarrow> bool \<Rightarrow> lane_section list \<Rightarrow> road" where
  "strip_road i c w drv sections =
     \<lparr>r_id = i, r_boundary = Some (strip c w), r_drivable = drv,
      r_midline = [(c, 0), (c, 1)],
      r_midline_project = (\<lambda>p. snd p), r_plan_view_calc = (\<lambda>s. ((c, s), pi / 2)),
      r_junction = None, r_predecessor = None, r_successor = None,
      r_lane_sections = sections\<rparr>"

definition strip_lane :: "int \<Rightarrow> int \<Rightarrow> LaneTypes \<Rightarrow> real \<Rightarrow> real \<Rightarrow> lane" where
  "strip_lane rid lid ty c w =
     \<lparr>l_road_id = rid, l_id = lid, l_section_idx = 0, l_boundary = Some (strip c w), l_type = ty\<rparr>"

definition closed_road_map :: opendrive_map where
  "closed_road_map = \<lparr>roads = [(7, strip_road 7 0 1 False [])]\<rparr>"

definition four_road_map :: opendrive_map where
  "four_road_map =
     \<lparr>roads = [(1, strip_road 1 0 2 True []), (2, strip_road 2 1 2 False []),
               (3, strip_road 3 (3 / 2) 2 True []), (4, strip_road 4 (1 / 2) 2 True [])]\<rparr>"

definition two_lane_sections :: "lane_section list" where
  "two_lane_sections =
     [\<lparr>ls_all_lanes = [strip_lane 5 1 DRIVING (-1) 1, strip_lane 5 0 NONE_TYPE 0 0,
                       strip_lane 5 (-1) DRIVING 1 1, strip_lane 5 (-2) SIDEWALK 3 1],
       ls_right_lanes = [strip_lane 5 (-1) DRIVING 1 1, strip_lane 5 (-2) SIDEWALK 3 1]\<rparr>]"

definition two_lane_map :: opendrive_map where
  "two_lane_map = \<lparr>roads = [(5, strip_road 5 0 4 True two_lane_sections)]\<rparr>"

text \<open>
  \<open>kerb_map\<close>: one road along the line \<open>x = 0\<close> with the lanes 2 and 1 on the left,
  the center lane, a sidewalk -1 and the driving lane -2 on the right.
\<close>

definition kerb_sections :: "lane_section list" where
  "kerb_sections =
     [\<lparr>ls_all_lanes = [strip_lane 8 2 DRIVING (- 7 / 2) (3 / 2), strip_lane 8 1 DRIVING (- 1) 1,
                       strip_lane 8 0 NONE_TYPE 0 0, strip_lane 8 (- 1) SIDEWALK (1 / 2) (2 / 5),
                       strip_lane 8 (- 2) DRIVING (12 / 5) (3 / 2)],
       ls_right_lanes = [strip_lane 8 (- 1) SIDEWALK (1 / 2) (2 / 5),
                         strip_lane 8 (- 2) DRIVING (12 / 5) (3 / 2)]\<rparr>]"

definition kerb_road :: road where
  "kerb_road = strip_road 8 0 5 True kerb_sections"

definition kerb_map :: opendrive_map where
  "kerb_map = \<lparr>roads = [(8, kerb_road)]\<rparr>"




definition east_goal :: goal where
  "east_goal = \<lparr>goal_center = (10, 0),
                 goal_distance = (\<lambda>line. case line of [] \<Rightarrow> 0 | p # _ \<Rightarrow> \<bar>fst p - 10\<bar>)\<rparr>"

definition start_state :: agent_state where
  "start_state = \<lparr>st_position = (0, 0), st_heading = 0, st_velocity = 0, st_time = 0\<rparr>"

definition start_observation :: observation where
  "start_observation =
     \<lparr>obs_frame = [(0, start_state)],
      obs_scenario_map = closed_road_map\<rparr>"

text \<open>
  An observation in which the agent 0 moves.
\<close>

definition moving_observation :: observation where
  "moving_observation =
     \<lparr>obs_frame = [(0, \<lparr>st_position = (0, 1), st_heading = 0, st_velocity = 1, st_time = 1\<rparr>)],
      obs_scenario_map = closed_road_map\<rparr>"

text \<open>
  Example macro actions: an instance records its class name and keyword
  arguments and counts the steps it has left; it is done when none is left.
\<close>

record macro_instance =
  mi_class :: string
  mi_kwargs :: kwargs
  mi_steps_left :: nat

definition steps_done :: "macro_instance \<Rightarrow> observation \<Rightarrow> bool" where
  "steps_done ma obs = (mi_steps_left ma = 0)"

text \<open>
  A completion predicate that reads the observation: the macro action is done
  while the agent 0 stands still.
\<close>

definition at_rest_done :: "macro_instance \<Rightarrow> observation \<Rightarrow> bool" where
  "at_rest_done ma obs =
     (case map_of (obs_frame obs) 0 of None \<Rightarrow> False | Some state \<Rightarrow> st_velocity state = 0)"

definition steps_next_action :: "macro_instance \<Rightarrow> observation \<Rightarrow> action \<times> macro_instance" where
  "steps_next_action ma obs =
     (\<lparr>acceleration = 1, steer_angle = 0\<rparr>, ma\<lparr>mi_steps_left := mi_steps_left ma - 1\<rparr>)"

definition no_path :: "int \<Rightarrow> frame \<Rightarrow> goal option \<Rightarrow> opendrive_map \<Rightarrow> macro_instance list list" where
  "no_path aid fr gl scenario_map = []"

definition finished_macro :: macro_instance where
  "finished_macro = \<lparr>mi_class = ''Continue'', mi_kwargs = [], mi_steps_left = 0\<rparr>"

definition fresh_agent :: "macro_instance agent" where
  "fresh_agent = \<lparr>agent_id = 0, a_goal = Some east_goal, a_current_macro = None, a_macro_actions = []\<rparr>"

definition planned_agent :: "macro_instance agent" where
  "planned_agent = \<lparr>agent_id = 0, a_goal = Some east_goal, a_current_macro = None,
                     a_macro_actions = [finished_macro]\<rparr>"

definition exhausted_agent :: "macro_instance agent" where
  "exhausted_agent = \<lparr>agent_id = 0, a_goal = Some east_goal,
                       a_current_macro = Some finished_macro, a_macro_actions = []\<rparr>"

text \<open>
  Example classes. \<open>Exit\<close> and \<open>Continue\<close> derive from the abstract base class
  \<open>MacroAction\<close>, so their metaclass is \<open>ABCMeta\<close>.
\<close>

definition make_instance ::
  "string \<Rightarrow> int \<Rightarrow> frame \<Rightarrow> opendrive_map \<Rightarrow> bool \<Rightarrow> kwargs \<Rightarrow> macro_instance" where
  "make_instance name aid fr scenario_map open_loop kw =
     \<lparr>mi_class = name, mi_kwargs = kw, mi_steps_left = 1\<rparr>"

definition exit_class :: "macro_instance macro_class" where
  "exit_class =
     \<lparr>cls_name = ''Exit'', cls_bases = [''MacroAction''], cls_metaclass = ABCMeta,
      cls_get_possible_args =
        (\<lambda>state scenario_map center. [[(''turn_target'', (0, 5))], [(''turn_target'', (10, 1))]]),
      cls_new = make_instance ''Exit''\<rparr>"

definition continue_class :: "macro_instance macro_class" where
  "continue_class =
     \<lparr>cls_name = ''Continue'', cls_bases = [''MacroAction''], cls_metaclass = ABCMeta,
      cls_get_possible_args =
        (\<lambda>state scenario_map center.
           [[(''termination_point'', (0, 5))], [(''termination_point'', (0, 9))]]),
      cls_new = make_instance ''Continue''\<rparr>"


section \<open>Properties of the lane and road queries\<close>

subsection \<open>\<open>lanes_at\<close>\<close>













text \<open>
  \<open>lanes_at\<close> tests the boundary of a lane, not its id: the center lane of
  \<open>two_lane_map\<close> has a boundary that is not empty, and it is returned.
\<close>

lemma lanes_at_center_lane_with_boundary:
  "map l_id (lanes_at two_lane_map (0, 0) False None) = [1, 0, - 1]"
  by (simp add: lanes_at_def two_lane_map_def two_lane_sections_def roads_at_def strip_road_def
        strip_lane_def strip_def within_distance_def LANE_PRECISION_ERROR_def
        lanes_at_lane_def lanes_at_accept_def lane_eq_def lane_identity_def)

subsection \<open>\<open>best_road_at\<close>\<close>

text \<open>
  C9. When exactly one road lies within tolerance of the point, or when no
  heading is given, \<open>best_road_at\<close> returns the first road at the point whatever
  \<open>drivable\<close> is and whether or not the road is drivable: \<open>roads_at\<close> is called
  without the drivable filter, which only the scoring loop applies.
\<close>

theorem best_road_at_first_unconditional:
  assumes "roads_at m point False None = first # rest"
      and "rest = [] \<or> heading = None"
  shows "best_road_at normalise_angle m point heading drivable gl = Some first"
  using assms by (auto simp: best_road_at_def Let_def)

text \<open>
  Witness for C9: the only road at the point is not drivable, and
  \<open>best_road_at\<close> with \<open>drivable = True\<close> and a heading returns it.
\<close>

theorem best_road_at_first_unconditional_witness:
  "roads_at closed_road_map (0, 0) False None = [strip_road 7 0 1 False []] \<and>
   \<not> r_drivable (strip_road 7 0 1 False []) \<and>
   best_road_at (\<lambda>a. a) closed_road_map (0, 0) (Some 0) True None = Some (strip_road 7 0 1 False [])"
proof -
  have h: "roads_at closed_road_map (0, 0) False None = [strip_road 7 0 1 False []]"
    by (simp add: roads_at_def closed_road_map_def strip_road_def strip_def within_distance_def
          ROAD_PRECISION_ERROR_def)
  show ?thesis
    using h best_road_at_first_unconditional [OF h, of "Some 0" "\<lambda>a. a" True None]
    by (simp add: strip_road_def)
qed

lemma best_road_at_step_skip:
  "drivable \<and> \<not> r_drivable road \<Longrightarrow>
   best_road_at_step na point h drivable gl st road = st"
  by (simp add: best_road_at_step_def)

lemma best_road_at_loop_filter:
  "foldl (best_road_at_step na point h drivable gl) st rs =
   foldl (best_road_at_step na point h drivable gl) st
     (filter (\<lambda>road. r_drivable road \<or> \<not> drivable) rs)"
proof (induction rs arbitrary: st)
  case Nil
  show ?case by simp
next
  case (Cons r rs)
  show ?case
  proof (cases "r_drivable r \<or> \<not> drivable")
    case True
    then show ?thesis using Cons.IH by simp
  next
    case False
    then have "best_road_at_step na point h drivable gl st r = st"
      by (simp add: best_road_at_step_skip)
    with False show ?thesis using Cons.IH by simp
  qed
qed

lemma best_road_at_loop_goal:
  assumes "\<forall>road \<in> set cs. r_drivable road \<or> \<not> drivable"
  shows "fst (foldl (best_road_at_step na point h drivable (Some g)) (Some best, d) cs) =
         Some (foldl (closer_to_goal g) best cs)"
  using assms
proof (induction cs arbitrary: best d)
  case Nil
  show ?case by simp
next
  case (Cons c cs)
  have ok: "r_drivable c \<or> \<not> drivable" using Cons.prems by auto
  have step: "best_road_at_step na point h drivable (Some g) (Some best, d) c =
        (Some (closer_to_goal g best c),
         if goal_distance g (r_midline c) < goal_distance g (r_midline best)
         then Some (heading_diff na c point h) else d)"
    using ok by (auto simp: best_road_at_step_def closer_to_goal_def Let_def)
  have "\<forall>road \<in> set cs. r_drivable road \<or> \<not> drivable" using Cons.prems by auto
  then show ?case
    by (simp add: step Cons.IH)
qed

lemma best_road_at_loop_first:
  assumes "r_drivable c \<or> \<not> drivable"
  shows "best_road_at_step na point h drivable gl (None, None) c =
         (Some c, Some (heading_diff na c point h))"
  using assms by (auto simp: best_road_at_step_def less_best_diff_def Let_def split: option.splits)

text \<open>
  C6. With a goal and a heading, and at least two candidate roads at the point
  that pass the drivable filter, \<open>best_road_at\<close> is the left fold over these
  candidates in insertion order: the first one is the running best, and a later
  one replaces it exactly when its midline is strictly closer to the goal than
  the midline of the running best.
\<close>

theorem best_road_at_goal_fold:
  assumes "2 \<le> length (drivable_candidates m point drivable)"
  shows "best_road_at normalise_angle m point (Some heading) drivable (Some g) =
         goal_fold g (drivable_candidates m point drivable)"
proof -
  let ?rs = "roads_at m point False None"
  let ?cs = "drivable_candidates m point drivable"
  let ?step = "best_road_at_step normalise_angle point (normalise_angle heading) drivable (Some g)"
  have "length ?cs \<le> length ?rs"
    unfolding drivable_candidates_def by (rule length_filter_le)
  with assms have len: "2 \<le> length ?rs" by simp
  then have loop: "best_road_at normalise_angle m point (Some heading) drivable (Some g) =
      fst (foldl ?step (None, None) ?rs)"
    by (simp add: best_road_at_def Let_def)
  have filt: "foldl ?step (None, None) ?rs = foldl ?step (None, None) ?cs"
    unfolding drivable_candidates_def by (rule best_road_at_loop_filter)
  from assms obtain c cs where cs: "?cs = c # cs"
    by (cases ?cs) auto
  have all: "\<forall>road \<in> set ?cs. r_drivable road \<or> \<not> drivable"
    unfolding drivable_candidates_def by simp
  then have c: "r_drivable c \<or> \<not> drivable" and rest: "\<forall>road \<in> set cs. r_drivable road \<or> \<not> drivable"
    unfolding cs by auto
  have "fst (foldl ?step (None, None) ?cs) = Some (foldl (closer_to_goal g) c cs)"
    unfolding cs by (simp add: best_road_at_loop_first [OF c] best_road_at_loop_goal [OF rest])
  then show ?thesis
    unfolding loop filt by (simp add: goal_fold_def cs)
qed

lemma four_road_candidates:
  "drivable_candidates four_road_map (0, 0) True =
     [strip_road 1 0 2 True [], strip_road 3 (3 / 2) 2 True [], strip_road 4 (1 / 2) 2 True []]"
  by (simp add: drivable_candidates_def roads_at_def four_road_map_def strip_road_def strip_def
        within_distance_def ROAD_PRECISION_ERROR_def)

text \<open>
  Witness for C6: four roads at the point, the second not drivable; the third
  is the first of the others whose midline is closest to the goal.
\<close>

theorem best_road_at_goal_fold_witness:
  "2 \<le> length (drivable_candidates four_road_map (0, 0) True) \<and>
   best_road_at (\<lambda>a. a) four_road_map (0, 0) (Some 0) True (Some east_goal) =
     Some (strip_road 3 (3 / 2) 2 True [])"
proof -
  have h: "2 \<le> length (drivable_candidates four_road_map (0, 0) True)"
    by (simp add: four_road_candidates)
  have "goal_fold east_goal (drivable_candidates four_road_map (0, 0) True) =
      Some (strip_road 3 (3 / 2) 2 True [])"
    unfolding four_road_candidates
    by (simp add: goal_fold_def closer_to_goal_def east_goal_def strip_road_def)
  with h best_road_at_goal_fold [OF h, of "\<lambda>a. a" 0 east_goal] show ?thesis by simp
qed

subsection \<open>\<open>best_lane_at\<close>\<close>

lemma foldl_sections:
  "foldl (\<lambda>acc section. foldl f acc (ls_all_lanes section)) acc sections =
   foldl f acc (concat (map ls_all_lanes sections))"
  by (induction sections arbitrary: acc) simp_all

lemma best_lane_at_loop_filter:
  "foldl (best_lane_at_step na point heading d md oa) best ls =
   foldl (best_lane_at_step na point heading d md oa) best
     (filter (best_lane_at_eligible point d md) ls)"
  by (induction ls arbitrary: best) (simp_all add: best_lane_at_step_def)

lemma best_lane_at_loop_min:
  assumes "\<forall>l \<in> set ls. best_lane_at_eligible point d md l"
  shows "\<exists>r. foldl (best_lane_at_step na point heading d md oa)
               (Some (lane_score na point heading oa b, b)) ls =
             Some (lane_score na point heading oa r, r) \<and>
             r \<in> set (b # ls) \<and>
             (\<forall>l \<in> set (b # ls). lane_score na point heading oa r \<le> lane_score na point heading oa l)"
  using assms
proof (induction ls arbitrary: b)
  case Nil
  show ?case by simp
next
  case (Cons c cs)
  let ?sc = "lane_score na point heading oa"
  have c: "best_lane_at_eligible point d md c" and cs: "\<forall>l \<in> set cs. best_lane_at_eligible point d md l"
    using Cons.prems by simp_all
  show ?case
  proof (cases "?sc b > ?sc c")
    case True
    then have step: "best_lane_at_step na point heading d md oa (Some (?sc b, b)) c = Some (?sc c, c)"
      using c by (simp add: best_lane_at_step_def Let_def)
    from Cons.IH [OF cs, of c] obtain r where
      r: "foldl (best_lane_at_step na point heading d md oa) (Some (?sc c, c)) cs = Some (?sc r, r)"
         "r \<in> set (c # cs)" "\<forall>l \<in> set (c # cs). ?sc r \<le> ?sc l"
      by blast
    from r(3) have "?sc r \<le> ?sc c" by simp
    with True have "?sc r \<le> ?sc b" by simp
    with r show ?thesis by (auto simp: step)
  next
    case False
    then have step: "best_lane_at_step na point heading d md oa (Some (?sc b, b)) c = Some (?sc b, b)"
      using c by (simp add: best_lane_at_step_def Let_def)
    from Cons.IH [OF cs, of b] obtain r where
      r: "foldl (best_lane_at_step na point heading d md oa) (Some (?sc b, b)) cs = Some (?sc r, r)"
         "r \<in> set (b # cs)" "\<forall>l \<in> set (b # cs). ?sc r \<le> ?sc l"
      by blast
    from r(3) have "?sc r \<le> ?sc b" by simp
    with False have "?sc r \<le> ?sc c" by simp
    with r show ?thesis by (auto simp: step)
  qed
qed

lemma best_lane_at_loop:
  "(case foldl (best_lane_at_step na point heading d md oa) None
           (filter (best_lane_at_eligible point d md) ls) of
      None \<Rightarrow> filter (best_lane_at_eligible point d md) ls = []
    | Some b \<Rightarrow> snd b \<in> set (filter (best_lane_at_eligible point d md) ls) \<and>
        (\<forall>l \<in> set (filter (best_lane_at_eligible point d md) ls).
           lane_score na point heading oa (snd b) \<le> lane_score na point heading oa l))"
proof (cases "filter (best_lane_at_eligible point d md) ls")
  case Nil
  then show ?thesis by simp
next
  case (Cons c cs)
  have "\<forall>l \<in> set (c # cs). best_lane_at_eligible point d md l"
    unfolding Cons [symmetric] by simp
  then have c: "best_lane_at_eligible point d md c" and cs: "\<forall>l \<in> set cs. best_lane_at_eligible point d md l"
    by simp_all
  have first: "best_lane_at_step na point heading d md oa None c =
      Some (lane_score na point heading oa c, c)"
    using c by (simp add: best_lane_at_step_def Let_def)
  from best_lane_at_loop_min [OF cs, where na = na and heading = heading and oa = oa and b = c]
  show ?thesis
    unfolding Cons by (auto simp: first)
qed

lemma best_lane_at_fold_result:
  "(best_road_at normalise_angle m point heading True gl = None \<longrightarrow>
      best_lane_at normalise_angle m point heading drivable_only max_distance gl = None) \<and>
   (\<forall>road. best_road_at normalise_angle m point heading True gl = Some road \<longrightarrow>
      (case best_lane_at normalise_angle m point heading drivable_only max_distance gl of
         None \<Rightarrow> eligible_lanes point drivable_only max_distance road = []
       | Some best \<Rightarrow>
           best \<in> set (eligible_lanes point drivable_only max_distance road) \<and>
           (\<forall>l \<in> set (eligible_lanes point drivable_only max_distance road).
              lane_score normalise_angle point heading (road_angle road point) best
              \<le> lane_score normalise_angle point heading (road_angle road point) l)))"
proof (intro conjI allI impI)
  assume "best_road_at normalise_angle m point heading True gl = None"
  then show "best_lane_at normalise_angle m point heading drivable_only max_distance gl = None"
    by (simp add: best_lane_at_def)
next
  fix road
  assume r: "best_road_at normalise_angle m point heading True gl = Some road"
  let ?md = "default_distance max_distance"
  let ?loop = "foldl (best_lane_at_step normalise_angle point heading drivable_only ?md
                  (road_angle road point)) None
                (filter (best_lane_at_eligible point drivable_only ?md) (road_lanes road))"
  have eq: "best_lane_at normalise_angle m point heading drivable_only max_distance gl =
        map_option snd ?loop"
    using r
    by (simp add: best_lane_at_def Let_def foldl_sections road_lanes_def default_distance_def
          best_lane_at_loop_filter [symmetric])
  show "case best_lane_at normalise_angle m point heading drivable_only max_distance gl of
         None \<Rightarrow> eligible_lanes point drivable_only max_distance road = []
       | Some best \<Rightarrow>
           best \<in> set (eligible_lanes point drivable_only max_distance road) \<and>
           (\<forall>l \<in> set (eligible_lanes point drivable_only max_distance road).
              lane_score normalise_angle point heading (road_angle road point) best
              \<le> lane_score normalise_angle point heading (road_angle road point) l)"
    using best_lane_at_loop [where na = normalise_angle and point = point and heading = heading
        and d = drivable_only and md = ?md and oa = "road_angle road point"
        and ls = "road_lanes road"]
    unfolding eq eligible_lanes_def
    by (cases ?loop) simp_all
qed

lemma lane_in_reach_eq:
  "best_lane_at_eligible point drivable_only (default_distance max_distance) l =
   lane_in_reach point drivable_only max_distance l"
  by (auto simp: best_lane_at_eligible_def lane_in_reach_def split: option.splits)

lemma angle_plus_distance_eq:
  "lane_score normalise_angle point heading (road_angle road point) l =
   angle_plus_distance normalise_angle road point heading l"
  by (simp add: lane_score_def angle_plus_distance_def lane_direction_def road_angle_def Let_def
        split: option.splits)

lemma best_lane_at_result:
  "(best_road_at normalise_angle m point heading True gl = None \<longrightarrow>
      best_lane_at normalise_angle m point heading drivable_only max_distance gl = None) \<and>
   (\<forall>road. best_road_at normalise_angle m point heading True gl = Some road \<longrightarrow>
      (case best_lane_at normalise_angle m point heading drivable_only max_distance gl of
         None \<Rightarrow> \<forall>l \<in> set (road_lanes road). \<not> lane_in_reach point drivable_only max_distance l
       | Some best \<Rightarrow>
           best \<in> set (road_lanes road) \<and>
           lane_in_reach point drivable_only max_distance best \<and>
           (\<forall>l \<in> set (road_lanes road).
              lane_in_reach point drivable_only max_distance l \<longrightarrow>
              angle_plus_distance normalise_angle road point heading best
              \<le> angle_plus_distance normalise_angle road point heading l)))"
  using best_lane_at_fold_result [of normalise_angle m point heading gl drivable_only max_distance]
  by (auto simp: eligible_lanes_def lane_in_reach_eq angle_plus_distance_eq filter_empty_conv
        split: option.splits)

text \<open>
  C7 (amended). \<open>best_lane_at\<close> resolves the road with \<open>best_road_at\<close>, to which it
  passes the heading and the goal, and returns \<open>None\<close> when there is no road.
  Otherwise it chooses among the lanes of that road that are not the center lane
  (id 0), are driving lanes when \<open>drivable_only\<close> holds, and have a boundary closer
  to the point than \<open>max_distance\<close>: it returns \<open>None\<close> when there is no such lane,
  and else one of them whose plain sum of angle difference and boundary distance
  is least among them. The angle difference is the absolute difference of the
  heading and the direction of the lane, and 0 without a heading. With
  \<open>drivable_only = False\<close> lanes that are not drivable are chosen from as well.
\<close>

theorem best_lane_at_least_score:
  "(best_road_at normalise_angle m point heading True gl = None \<longrightarrow>
      best_lane_at normalise_angle m point heading drivable_only max_distance gl = None) \<and>
   (\<forall>road. best_road_at normalise_angle m point heading True gl = Some road \<longrightarrow>
      (case best_lane_at normalise_angle m point heading drivable_only max_distance gl of
         None \<Rightarrow> \<forall>l \<in> set (road_lanes road). \<not> lane_in_reach point drivable_only max_distance l
       | Some best \<Rightarrow>
           best \<in> set (road_lanes road) \<and>
           lane_in_reach point drivable_only max_distance best \<and>
           (\<forall>l \<in> set (road_lanes road).
              lane_in_reach point drivable_only max_distance l \<longrightarrow>
              angle_plus_distance normalise_angle road point heading best
              \<le> angle_plus_distance normalise_angle road point heading l)))"
  by (rule best_lane_at_result)

lemma kerb_road_found:
  "best_road_at (\<lambda>a. a) kerb_map (0, 0) (Some (pi / 2)) True None = Some kerb_road"
  by (simp add: best_road_at_def kerb_map_def roads_at_def kerb_road_def strip_road_def strip_def
        within_distance_def ROAD_PRECISION_ERROR_def)

lemma kerb_road_lanes:
  "road_lanes kerb_road =
     [strip_lane 8 2 DRIVING (- 7 / 2) (3 / 2), strip_lane 8 1 DRIVING (- 1) 1,
      strip_lane 8 0 NONE_TYPE 0 0, strip_lane 8 (- 1) SIDEWALK (1 / 2) (2 / 5),
      strip_lane 8 (- 2) DRIVING (12 / 5) (3 / 2)]"
  by (simp add: road_lanes_def kerb_road_def strip_road_def kerb_sections_def)

lemma kerb_in_reach:
  "\<not> lane_in_reach (0, 0) True (Some 1) (strip_lane 8 2 DRIVING (- 7 / 2) (3 / 2))"
  "lane_in_reach (0, 0) True (Some 1) (strip_lane 8 1 DRIVING (- 1) 1)"
  "\<not> lane_in_reach (0, 0) True (Some 1) (strip_lane 8 0 NONE_TYPE 0 0)"
  "\<not> lane_in_reach (0, 0) True (Some 1) (strip_lane 8 (- 1) SIDEWALK (1 / 2) (2 / 5))"
  "lane_in_reach (0, 0) True (Some 1) (strip_lane 8 (- 2) DRIVING (12 / 5) (3 / 2))"
  by (simp_all add: lane_in_reach_def default_distance_def strip_lane_def strip_def)

lemma kerb_scores:
  "angle_plus_distance (\<lambda>a. a) kerb_road (0, 0) (Some (pi / 2)) (strip_lane 8 1 DRIVING (- 1) 1) = pi"
  "angle_plus_distance (\<lambda>a. a) kerb_road (0, 0) (Some (pi / 2))
     (strip_lane 8 (- 2) DRIVING (12 / 5) (3 / 2)) = 9 / 10"
  by (simp_all add: angle_plus_distance_def lane_direction_def kerb_road_def strip_road_def
        strip_lane_def strip_def)

text \<open>
  Witness for C7: on the center line of \<open>kerb_map\<close>, heading along the road, the
  center lane and the sidewalk have the least sums and the left lane 1 is the
  nearest driving lane; the driving lane -2 is returned.
\<close>

theorem best_lane_at_least_score_witness:
  "best_road_at (\<lambda>a. a) kerb_map (0, 0) (Some (pi / 2)) True None = Some kerb_road \<and>
   best_lane_at (\<lambda>a. a) kerb_map (0, 0) (Some (pi / 2)) True (Some 1) None =
     Some (strip_lane 8 (- 2) DRIVING (12 / 5) (3 / 2))"
proof -
  let ?res = "best_lane_at (\<lambda>a. a) kerb_map (0, 0) (Some (pi / 2)) True (Some 1) None"
  let ?reach = "lane_in_reach (0, 0) True (Some 1)"
  let ?score = "angle_plus_distance (\<lambda>a. a) kerb_road (0, 0) (Some (pi / 2))"
  have "case ?res of
         None \<Rightarrow> \<forall>l \<in> set (road_lanes kerb_road). \<not> ?reach l
       | Some best \<Rightarrow> best \<in> set (road_lanes kerb_road) \<and> ?reach best \<and>
           (\<forall>l \<in> set (road_lanes kerb_road). ?reach l \<longrightarrow> ?score best \<le> ?score l)"
    using best_lane_at_least_score [where normalise_angle = "\<lambda>a. a" and m = kerb_map
        and point = "(0, 0)" and heading = "Some (pi / 2)" and gl = None
        and drivable_only = True and max_distance = "Some 1"] kerb_road_found
    by blast
  then obtain best where b: "?res = Some best"
      and mem: "best \<in> set (road_lanes kerb_road)" and reach: "?reach best"
      and le: "?score best \<le> ?score (strip_lane 8 (- 2) DRIVING (12 / 5) (3 / 2))"
    unfolding kerb_road_lanes using kerb_in_reach by (cases ?res) auto
  from mem reach have "best = strip_lane 8 1 DRIVING (- 1) 1 \<or>
      best = strip_lane 8 (- 2) DRIVING (12 / 5) (3 / 2)"
    unfolding kerb_road_lanes using kerb_in_reach by auto
  then have "best = strip_lane 8 (- 2) DRIVING (12 / 5) (3 / 2)"
  proof
    assume "best = strip_lane 8 1 DRIVING (- 1) 1"
    with le have "pi \<le> 9 / 10" by (simp only: kerb_scores)
    with pi_ge_two have False by linarith
    then show ?thesis ..
  qed simp
  with b kerb_road_found show ?thesis by simp
qed

text \<open>
  C7 as stated fails: with \<open>drivable_only = False\<close> the lane returned for a point
  on the sidewalk of \<open>kerb_map\<close> is the sidewalk, which is not drivable.
\<close>

theorem best_lane_at_sidewalk_counterexample:
  "best_lane_at (\<lambda>a. a) kerb_map (1 / 2, 0) None False (Some 1) None =
     Some (strip_lane 8 (- 1) SIDEWALK (1 / 2) (2 / 5)) \<and>
   l_type (strip_lane 8 (- 1) SIDEWALK (1 / 2) (2 / 5)) \<noteq> DRIVING"
  by (simp add: best_lane_at_def best_road_at_def kerb_map_def roads_at_def kerb_road_def
        strip_road_def strip_def within_distance_def ROAD_PRECISION_ERROR_def kerb_sections_def
        best_lane_at_step_def best_lane_at_eligible_def lane_score_def strip_lane_def)

section \<open>Properties of the roundabout queries\<close>

lemma depth_sound:
  "road_in_roundabout_depth n deref road = Some b \<Longrightarrow> road_in_roundabout deref road = Some b"
proof (induction n arbitrary: road b)
  case 0
  then show ?case by simp
next
  case (Suc n)
  from Suc.prems show ?case
    apply (subst road_in_roundabout.simps)
    apply (auto split: option.splits element.splits if_splits Option.bind_splits
             simp: Suc.IH)
    done
qed

lemma depth_mono_Suc:
  "road_in_roundabout_depth n deref road = Some b \<Longrightarrow>
   road_in_roundabout_depth (Suc n) deref road = Some b"
proof (induction n arbitrary: road b)
  case 0
  then show ?case by simp
next
  case (Suc n)
  have IH: "\<And>r c. road_in_roundabout_depth n deref r = Some c \<Longrightarrow>
                 road_in_roundabout_depth (Suc n) deref r = Some c"
    by (rule Suc.IH)
  from Suc.prems show ?case
    apply (subst road_in_roundabout_depth.simps(2))
    apply (subst (asm) road_in_roundabout_depth.simps(2))
    apply (auto split: option.splits element.splits if_splits Option.bind_splits
             simp del: road_in_roundabout_depth.simps dest!: IH)
    done
qed

lemma depth_mono:
  "road_in_roundabout_depth n deref road = Some b \<Longrightarrow> n \<le> m \<Longrightarrow>
   road_in_roundabout_depth m deref road = Some b"
  by (induction m) (auto simp: le_Suc_eq depth_mono_Suc simp del: road_in_roundabout_depth.simps)

lemma depth_step:
  assumes "\<And>j. j \<in> set (visited_links deref road) \<Longrightarrow>
             \<exists>b. road_in_roundabout_depth n deref (deref j) = Some b"
  shows "\<exists>b. road_in_roundabout_depth (Suc n) deref road = Some b"
proof (cases "\<exists>p s junction g. r_predecessor road = Some (RoadElement p) \<and>
                r_successor road = Some (RoadElement s) \<and> r_junction road = Some junction \<and>
                j_junction_group junction = Some g \<and> jg_type g = ''roundabout''")
  case True
  then obtain p s junction g where l: "r_predecessor road = Some (RoadElement p)"
      "r_successor road = Some (RoadElement s)" "r_junction road = Some junction"
      "j_junction_group junction = Some g" "jg_type g = ''roundabout''"
    by blast
  then have "p \<in> set (visited_links deref road)"
    by (simp add: visited_links_def)
  then obtain a where a: "road_in_roundabout_depth n deref (deref p) = Some a"
    using assms by blast
  show ?thesis
  proof (cases a)
    case False
    with a l show ?thesis by (auto simp: is_roundabout_def)
  next
    case True
    with a have "road_in_roundabout deref (deref p) = Some True"
      by (simp add: depth_sound)
    with l have "s \<in> set (visited_links deref road)"
      by (simp add: visited_links_def)
    then obtain b where "road_in_roundabout_depth n deref (deref s) = Some b"
      using assms by blast
    with a True l show ?thesis by (auto simp: is_roundabout_def)
  qed
next
  case False
  with assms show ?thesis
    by (auto simp: visited_links_def is_roundabout_def same_group_def
          split: option.splits element.splits)
qed

lemma depth_rank:
  assumes "links_well_founded deref rank"
  shows "\<exists>b. road_in_roundabout_depth (Suc (rank i)) deref (deref i) = Some b"
proof (induction "rank i" arbitrary: i rule: less_induct)
  case less
  show ?case
  proof (rule depth_step)
    fix j assume "j \<in> set (visited_links deref (deref i))"
    with assms have lt: "rank j < rank i" unfolding links_well_founded_def by blast
    then obtain b where "road_in_roundabout_depth (Suc (rank j)) deref (deref j) = Some b"
      using less by blast
    moreover from lt have "Suc (rank j) \<le> rank i" by simp
    ultimately have "road_in_roundabout_depth (rank i) deref (deref j) = Some b"
      by (rule depth_mono)
    then show "\<exists>b. road_in_roundabout_depth (rank i) deref (deref j) = Some b" ..
  qed
qed

lemma visited_links_plain:
  assumes "\<not> in_roundabout_junction road"
  shows "visited_links deref road = []"
proof (cases "r_junction road")
  case None
  then show ?thesis by (simp add: visited_links_def split: option.splits)
next
  case (Some junction)
  show ?thesis
  proof (cases "j_junction_group junction")
    case None
    with Some show ?thesis by (simp add: visited_links_def split: option.splits)
  next
    case (Some g)
    with \<open>r_junction road = Some junction\<close> assms have "jg_type g \<noteq> ''roundabout''"
      by (simp add: in_roundabout_junction_def)
    with Some \<open>r_junction road = Some junction\<close> show ?thesis
      by (simp add: visited_links_def split: option.splits)
  qed
qed

lemma depth_plain:
  assumes "\<not> in_roundabout_junction road"
  shows "\<exists>b. road_in_roundabout_depth (Suc 0) deref road = Some b"
  by (rule depth_step) (simp add: visited_links_plain [OF assms])

text \<open>
  C1 (amended). The call of \<open>road_in_roundabout\<close> on a road that is not in a
  junction of a roundabout group returns without a nested call, whatever the
  links of the road and of the other roads are; a cyclic chain of predecessor and
  successor links among such roads is no obstacle. In a store for which a rank
  decreases from every road to each road that the call on it recurses into, the
  call on the road \<open>i\<close> returns with at most \<open>rank i + 1\<close> calls nested in each
  other.
\<close>

theorem road_in_roundabout_terminates:
  "(\<not> in_roundabout_junction road \<longrightarrow>
      (\<exists>b. road_in_roundabout_depth (Suc 0) deref road = Some b \<and>
            road_in_roundabout deref road = Some b)) \<and>
   (links_well_founded deref rank \<longrightarrow>
      (\<exists>b. road_in_roundabout_depth (Suc (rank i)) deref (deref i) = Some b \<and>
            road_in_roundabout deref (deref i) = Some b))"
proof (intro conjI impI)
  assume "\<not> in_roundabout_junction road"
  then obtain b where "road_in_roundabout_depth (Suc 0) deref road = Some b"
    using depth_plain [of road deref] by blast
  then show "\<exists>b. road_in_roundabout_depth (Suc 0) deref road = Some b \<and>
                 road_in_roundabout deref road = Some b"
    by (blast dest: depth_sound)
next
  assume "links_well_founded deref rank"
  then obtain b where "road_in_roundabout_depth (Suc (rank i)) deref (deref i) = Some b"
    using depth_rank by blast
  then show "\<exists>b. road_in_roundabout_depth (Suc (rank i)) deref (deref i) = Some b \<and>
                 road_in_roundabout deref (deref i) = Some b"
    by (blast dest: depth_sound)
qed

lemma road_in_roundabout_no_junction:
  "road_in_roundabout deref (link_road i None p (Some (RoadElement s))) = Some False"
  by (subst road_in_roundabout.simps)
     (simp add: link_road_def split: option.splits element.splits)

lemma visited_links_connector:
  "visited_links deref (link_road i (Some ring_junction) (Some (RoadElement p)) (Some (RoadElement s))) =
     p # (if road_in_roundabout deref (deref p) = Some True then [s] else [])"
  by (simp add: visited_links_def link_road_def ring_junction_def roundabout_group_def)

lemma visited_links_no_junction:
  "visited_links deref (link_road i None p s) = []"
  by (simp add: visited_links_def link_road_def split: option.splits)

lemma mixed_store_well_founded: "links_well_founded mixed_store mixed_rank"
  by (simp add: links_well_founded_def mixed_store_def mixed_rank_def
        visited_links_connector visited_links_no_junction road_in_roundabout_no_junction)

text \<open>
  Witness for C1: in \<open>mixed_store\<close> the plain roads 1 and 2 form a cyclic chain,
  and the connector roads 4 and 5 are each the successor of the other; the call
  on road 1 and the call on road 4 return.
\<close>

theorem road_in_roundabout_terminates_witness:
  "\<not> in_roundabout_junction (mixed_store 1) \<and>
   road_in_roundabout mixed_store (mixed_store 1) = Some False \<and>
   links_well_founded mixed_store mixed_rank \<and>
   road_in_roundabout_depth (Suc (mixed_rank 4)) mixed_store (mixed_store 4) = Some False \<and>
   road_in_roundabout mixed_store (mixed_store 4) = Some False"
proof -
  have plain: "\<not> in_roundabout_junction (mixed_store 1)"
    by (simp add: in_roundabout_junction_def mixed_store_def link_road_def)
  note t = road_in_roundabout_terminates [of "mixed_store 1" mixed_store mixed_rank 4]
  from t plain obtain b where b: "road_in_roundabout mixed_store (mixed_store 1) = Some b"
    by blast
  have "road_in_roundabout mixed_store (mixed_store 1) = Some False"
    by (simp add: mixed_store_def road_in_roundabout_no_junction)
  moreover
  from t mixed_store_well_founded obtain c where
    c: "road_in_roundabout_depth (Suc (mixed_rank 4)) mixed_store (mixed_store 4) = Some c"
       "road_in_roundabout mixed_store (mixed_store 4) = Some c"
    by blast
  have "road_in_roundabout_depth (Suc (mixed_rank 4)) mixed_store (mixed_store 4) = Some False"
    by (simp add: mixed_rank_def mixed_store_def link_road_def ring_junction_def
          roundabout_group_def is_roundabout_def)
  with c have "c = False" by simp
  ultimately show ?thesis using plain mixed_store_well_founded c by simp
qed

text \<open>
  The rank is needed as well: when the call returns on every road of a store,
  the least depth at which it does is such a rank.
\<close>

lemma depth_complete:
  assumes "road_in_roundabout deref road = Some b"
  shows "\<exists>n. road_in_roundabout_depth n deref road = Some b"
  using assms
proof (induction deref road b rule: road_in_roundabout.raw_induct [rotated 1, consumes 1, case_names step])
  case (step f deref road b)
  have call: "\<exists>n. road_in_roundabout_depth n deref r = Some c" if "f deref r = Some c" for r c
    using step(1) that by blast
  have pair: "\<exists>n. (road_in_roundabout_depth n deref (deref p) \<bind>
                 (\<lambda>a. if a then road_in_roundabout_depth n deref (deref s) else Some False)) = Some b"
    if "(f deref (deref p) \<bind> (\<lambda>a. if a then f deref (deref s) else Some False)) = Some b"
    for p s
  proof -
    from that obtain a where a: "f deref (deref p) = Some a"
        and rest: "(if a then f deref (deref s) else Some False) = Some b"
      by (auto split: Option.bind_splits)
    from call [OF a] obtain n1 where n1: "road_in_roundabout_depth n1 deref (deref p) = Some a" ..
    show ?thesis
    proof (cases a)
      case False
      with n1 rest show ?thesis by (intro exI [of _ n1]) simp
    next
      case True
      with rest have "f deref (deref s) = Some b" by simp
      from call [OF this] obtain n2 where n2: "road_in_roundabout_depth n2 deref (deref s) = Some b" ..
      have "road_in_roundabout_depth (max n1 n2) deref (deref p) = Some a"
        by (rule depth_mono [OF n1]) simp
      moreover have "road_in_roundabout_depth (max n1 n2) deref (deref s) = Some b"
        by (rule depth_mono [OF n2]) simp
      ultimately show ?thesis using True by (intro exI [of _ "max n1 n2"]) simp
    qed
  qed
  have "\<exists>n. road_in_roundabout_depth (Suc n) deref road = Some b"
    using step(2)
    by (auto split: option.splits element.splits if_splits dest: call pair)
  then show ?case by blast
qed

lemma visited_depth:
  assumes "road_in_roundabout_depth (Suc n) deref road = Some b"
      and "j \<in> set (visited_links deref road)"
  shows "\<exists>c. road_in_roundabout_depth n deref (deref j) = Some c"
proof (cases "\<exists>p s junction g. r_predecessor road = Some (RoadElement p) \<and>
                r_successor road = Some (RoadElement s) \<and> r_junction road = Some junction \<and>
                j_junction_group junction = Some g \<and> jg_type g = ''roundabout''")
  case True
  then obtain p s junction g where l: "r_predecessor road = Some (RoadElement p)"
      "r_successor road = Some (RoadElement s)" "r_junction road = Some junction"
      "j_junction_group junction = Some g" "jg_type g = ''roundabout''"
    by blast
  with assms(1) obtain a where a: "road_in_roundabout_depth n deref (deref p) = Some a"
      and rest: "(if a then road_in_roundabout_depth n deref (deref s) else Some False) = Some b"
    by (auto simp: is_roundabout_def split: Option.bind_splits)
  from l assms(2) have "j = p \<or> (j = s \<and> road_in_roundabout deref (deref p) = Some True)"
    by (auto simp: visited_links_def split: if_splits)
  then show ?thesis
  proof
    assume "j = p" with a show ?thesis by simp
  next
    assume js: "j = s \<and> road_in_roundabout deref (deref p) = Some True"
    from a have "road_in_roundabout deref (deref p) = Some a" by (rule depth_sound)
    with js have "a" by simp
    with rest js show ?thesis by simp
  qed
next
  case False
  with assms show ?thesis
    by (auto simp: visited_links_def is_roundabout_def same_group_def
          split: option.splits element.splits if_splits)
qed

lemma links_well_founded_necessary:
  assumes "\<forall>i. \<exists>b. road_in_roundabout deref (deref i) = Some b"
  shows "\<exists>rank. links_well_founded deref rank"
proof -
  define rank where
    "rank i = (LEAST n. \<exists>b. road_in_roundabout_depth n deref (deref i) = Some b)" for i
  have least: "\<exists>b. road_in_roundabout_depth (rank i) deref (deref i) = Some b" for i
  proof -
    from assms obtain b where "road_in_roundabout deref (deref i) = Some b" by blast
    then obtain n where "road_in_roundabout_depth n deref (deref i) = Some b"
      using depth_complete by blast
    then have "\<exists>b. road_in_roundabout_depth n deref (deref i) = Some b" ..
    then show ?thesis unfolding rank_def by (rule LeastI)
  qed
  have "rank j < rank i" if "j \<in> set (visited_links deref (deref i))" for i j
  proof -
    from least [of i] obtain b where b: "road_in_roundabout_depth (rank i) deref (deref i) = Some b" ..
    then obtain k where k: "rank i = Suc k" by (cases "rank i") simp_all
    from b that have "\<exists>c. road_in_roundabout_depth k deref (deref j) = Some c"
      unfolding k by (rule visited_depth)
    then have "rank j \<le> k" unfolding rank_def by (rule Least_le)
    with k show ?thesis by simp
  qed
  then have "links_well_founded deref rank" by (simp add: links_well_founded_def)
  then show ?thesis by blast
qed

lemma ring_store_no_result:
  assumes "road_in_roundabout d r = Some y"
  shows "\<not> (d = ring_store \<and> (r = ring_store 1 \<or> r = ring_store 2))"
  using assms
proof (induction d r y rule: road_in_roundabout.raw_induct [rotated 1, consumes 1, case_names step])
  case (step f deref road y)
  show ?case
  proof
    assume a: "deref = ring_store \<and> (road = ring_store 1 \<or> road = ring_store 2)"
    then have d: "deref = ring_store" by simp
    from a have "road = ring_store 1 \<or> road = ring_store 2" by simp
    then show False
    proof
      assume r: "road = ring_store 1"
      from step(2) have "f ring_store (ring_store 2) \<noteq> None"
        unfolding d r
        by (auto simp: ring_store_def link_road_def ring_junction_def roundabout_group_def
              is_roundabout_def split: Option.bind_splits)
      with step(1) show False by auto
    next
      assume r: "road = ring_store 2"
      from step(2) have "f ring_store (ring_store 1) \<noteq> None"
        unfolding d r
        by (auto simp: ring_store_def link_road_def ring_junction_def roundabout_group_def
              is_roundabout_def split: Option.bind_splits)
      with step(1) show False by auto
    qed
  qed
qed

text \<open>
  C1 as stated fails: in \<open>ring_store\<close>, two connector roads of a roundabout
  junction that are each the predecessor and the successor of the other, the
  call on road 1 does not return.
\<close>

theorem road_in_roundabout_cyclic_counterexample:
  "road_in_roundabout ring_store (ring_store 1) = None"
  using ring_store_no_result [of ring_store "ring_store 1"]
  by (cases "road_in_roundabout ring_store (ring_store 1)") auto

text \<open>
  C10. When \<open>best_road_at\<close> finds no road at the point, \<open>in_roundabout\<close> raises
  \<open>ValueError\<close>; it returns neither \<open>False\<close> nor \<open>None\<close>.
\<close>

theorem in_roundabout_no_road_raises:
  assumes "best_road_at normalise_angle m point heading True None = None"
  shows "in_roundabout normalise_angle deref m point heading = Some (Inl ValueError)"
  using assms by (simp add: in_roundabout_def)

text \<open>
  Witness for C10: a point away from the only road of the map.
\<close>

theorem in_roundabout_no_road_raises_witness:
  "best_road_at (\<lambda>a. a) closed_road_map (5, 0) (Some 0) True None = None \<and>
   in_roundabout (\<lambda>a. a) chain_store closed_road_map (5, 0) (Some 0) = Some (Inl ValueError)"
proof -
  have h: "best_road_at (\<lambda>a. a) closed_road_map (5, 0) (Some 0) True None = None"
    by (simp add: best_road_at_def roads_at_def closed_road_map_def strip_road_def strip_def
          within_distance_def ROAD_PRECISION_ERROR_def)
  show ?thesis
    using h in_roundabout_no_road_raises [OF h, of chain_store] by simp
qed

section \<open>Properties of the agents\<close>

subsection \<open>\<open>TrafficAgent\<close>\<close>

text \<open>
  C3 (amended). When the planner returns an empty list, \<open>set_destination\<close> raises
  \<open>RuntimeError\<close> and leaves the plan and the current macro action as they were;
  a goal given to it has replaced the goal of the agent. Afterwards \<open>done\<close>
  returns \<open>False\<close> when the plan is not empty. With an empty plan it raises the
  assertion failure of \<open>MacroAgent.done\<close> when there is no current macro action,
  and otherwise returns what the current macro action reports.
\<close>

theorem set_destination_no_path:
  assumes "search (agent_id self) (obs_frame obs) (new_goal self gl) (obs_scenario_map obs) = []"
  shows "set_destination search self obs gl = (Inl RuntimeError, self\<lparr>a_goal := new_goal self gl\<rparr>) \<and>
         traffic_agent_done ma_done (snd (set_destination search self obs gl)) obs' =
           (if a_macro_actions self = []
            then (case a_current_macro self of
                    None \<Rightarrow> Inl AssertionError
                  | Some current \<Rightarrow> Inr (ma_done current obs'))
            else Inr False)"
  using assms
  by (cases gl) (simp_all add: set_destination_def new_goal_def traffic_agent_done_def macro_agent_done_def)

text \<open>
  Witness for C3: an agent with a plan; the failed \<open>set_destination\<close> leaves it
  unchanged and \<open>done\<close> is \<open>False\<close>.
\<close>

theorem set_destination_no_path_witness:
  "no_path (agent_id planned_agent) (obs_frame start_observation) (new_goal planned_agent None)
     (obs_scenario_map start_observation) = [] \<and>
   set_destination no_path planned_agent start_observation None = (Inl RuntimeError, planned_agent) \<and>
   traffic_agent_done steps_done (snd (set_destination no_path planned_agent start_observation None))
     start_observation = Inr False"
proof -
  have h: "no_path (agent_id planned_agent) (obs_frame start_observation) (new_goal planned_agent None)
     (obs_scenario_map start_observation) = []"
    by (simp add: no_path_def)
  note t = set_destination_no_path [where search = no_path and self = planned_agent
        and obs = start_observation and gl = None and ma_done = steps_done
        and obs' = start_observation, OF h]
  have g: "planned_agent\<lparr>a_goal := new_goal planned_agent None\<rparr> = planned_agent"
    by (simp add: planned_agent_def new_goal_def)
  have p: "a_macro_actions planned_agent \<noteq> []"
    by (simp add: planned_agent_def)
  from t have a: "set_destination no_path planned_agent start_observation None =
      (Inl RuntimeError, planned_agent)"
    unfolding g by (rule conjunct1)
  have b: "traffic_agent_done steps_done
      (snd (set_destination no_path planned_agent start_observation None)) start_observation =
      Inr False"
    by (rule trans [OF conjunct2 [OF t]]) (simp add: p)
  from h a b show ?thesis by blast
qed

text \<open>
  C3 as stated fails: on an agent with no plan and no current macro action the
  planner's failure is raised, and \<open>done\<close> then raises \<open>AssertionError\<close> instead
  of returning \<open>False\<close>.
\<close>

theorem set_destination_done_counterexample:
  "fst (set_destination no_path fresh_agent start_observation None) = Inl RuntimeError \<and>
   traffic_agent_done steps_done (snd (set_destination no_path fresh_agent start_observation None))
     start_observation = Inl AssertionError"
  by (simp add: set_destination_def no_path_def fresh_agent_def traffic_agent_done_def
        macro_agent_done_def)

lemma next_action_exhausted:
  assumes "a_current_macro self = Some current" and "a_macro_actions self = []"
      and "ma_done current obs"
  shows "next_action search ma_done ma_next_action self obs =
           (Inr \<lparr>acceleration = 0, steer_angle = 0\<rparr>, self)"
  using assms by (simp add: next_action_def and_then_def)

lemma next_action_not_done:
  assumes "a_current_macro self = Some current" and "a_macro_actions self = []"
      and "\<not> ma_done current obs"
  shows "next_action search ma_done ma_next_action self obs =
           (Inr (fst (ma_next_action current obs)),
            self\<lparr>a_current_macro := Some (snd (ma_next_action current obs))\<rparr>)"
  using assms by (simp add: next_action_def and_then_def current_macro_next_action_def)

lemma next_actions_all_done:
  assumes "a_current_macro self = Some current"
      and "a_macro_actions self = []"
      and "list_all (ma_done current) observations"
  shows "next_actions search ma_done ma_next_action self observations =
           (replicate (length observations) (Inr \<lparr>acceleration = 0, steer_angle = 0\<rparr>), self)"
  using assms
  by (induction observations) (simp_all add: next_action_exhausted)

text \<open>
  C8 (amended). The agent keeps no state of being exhausted: \<open>next_action\<close> tests
  the current macro action on every call. For an agent with a current macro
  action and an empty plan queue, a call on an observation at which the macro
  action reports done returns the action with zero acceleration and zero
  steering, raises nothing and leaves the agent as it is; a call on an
  observation at which it does not report done returns the next action of the
  macro action. So over a sequence of calls, all of them return the neutral
  action when the macro action reports done at each of their observations.
\<close>

theorem next_action_exhausted_call:
  assumes "a_current_macro self = Some current"
      and "a_macro_actions self = []"
  shows "next_action search ma_done ma_next_action self obs =
           (if ma_done current obs
            then (Inr \<lparr>acceleration = 0, steer_angle = 0\<rparr>, self)
            else (Inr (fst (ma_next_action current obs)),
                  self\<lparr>a_current_macro := Some (snd (ma_next_action current obs))\<rparr>)) \<and>
         (list_all (ma_done current) observations \<longrightarrow>
            next_actions search ma_done ma_next_action self observations =
              (replicate (length observations) (Inr \<lparr>acceleration = 0, steer_angle = 0\<rparr>), self))"
  using assms
  by (simp add: next_action_exhausted next_action_not_done next_actions_all_done)

text \<open>
  Witness for C8: two calls on an agent whose only macro action is finished.
\<close>

theorem next_action_exhausted_call_witness:
  "a_current_macro exhausted_agent = Some finished_macro \<and>
   a_macro_actions exhausted_agent = [] \<and>
   list_all (steps_done finished_macro) [start_observation, moving_observation] \<and>
   next_action no_path steps_done steps_next_action exhausted_agent start_observation =
     (Inr \<lparr>acceleration = 0, steer_angle = 0\<rparr>, exhausted_agent) \<and>
   next_actions no_path steps_done steps_next_action exhausted_agent
       [start_observation, moving_observation] =
     ([Inr \<lparr>acceleration = 0, steer_angle = 0\<rparr>, Inr \<lparr>acceleration = 0, steer_angle = 0\<rparr>],
      exhausted_agent)"
proof -
  have h1: "a_current_macro exhausted_agent = Some finished_macro"
    and h2: "a_macro_actions exhausted_agent = []"
    by (simp_all add: exhausted_agent_def)
  have h3: "list_all (steps_done finished_macro) [start_observation, moving_observation]"
    by (simp add: steps_done_def finished_macro_def)
  have h4: "steps_done finished_macro start_observation"
    by (simp add: steps_done_def finished_macro_def)
  note t = next_action_exhausted_call [where self = exhausted_agent and current = finished_macro
        and ma_done = steps_done and observations = "[start_observation, moving_observation]"
        and obs = start_observation and search = no_path and ma_next_action = steps_next_action,
        OF h1 h2]
  from conjunct1 [OF t] h4 have a: "next_action no_path steps_done steps_next_action exhausted_agent start_observation =
     (Inr \<lparr>acceleration = 0, steer_angle = 0\<rparr>, exhausted_agent)"
    by simp
  from conjunct2 [OF t] h3 have b: "next_actions no_path steps_done steps_next_action exhausted_agent
       [start_observation, moving_observation] =
     ([Inr \<lparr>acceleration = 0, steer_angle = 0\<rparr>, Inr \<lparr>acceleration = 0, steer_angle = 0\<rparr>],
      exhausted_agent)"
    by (simp del: next_actions.simps)
  from h1 h2 h3 a b show ?thesis by blast
qed

text \<open>
  C8 as stated fails: the current macro action reports done at the first
  observation, the plan queue is empty and the first call returns the neutral
  action; at the next observation the macro action does not report done, and the
  call returns the action of the macro action.
\<close>

theorem next_action_done_again_counterexample:
  "a_current_macro exhausted_agent = Some finished_macro \<and>
   a_macro_actions exhausted_agent = [] \<and>
   at_rest_done finished_macro start_observation \<and>
   fst (next_actions no_path at_rest_done steps_next_action exhausted_agent
          [start_observation, moving_observation]) =
     [Inr \<lparr>acceleration = 0, steer_angle = 0\<rparr>, Inr \<lparr>acceleration = 1, steer_angle = 0\<rparr>]"
  by (simp add: exhausted_agent_def at_rest_done_def start_observation_def moving_observation_def
        start_state_def next_action_def and_then_def current_macro_next_action_def
        steps_next_action_def finished_macro_def)

subsection \<open>\<open>MacroAgent.update_macro_action\<close>\<close>

lemma install_candidates_last:
  "install_candidates c fr scenario_map (earlier @ [last_candidate]) self =
     self\<lparr>a_current_macro := Some (cls_new c (agent_id self) fr scenario_map False last_candidate)\<rparr>"
  by (induction earlier arbitrary: self) simp_all

text \<open>
  Where the narrowing does not apply, \<open>update_macro_action\<close> installs the macro
  action constructed from the last candidate.
\<close>

lemma update_macro_action_last_candidate:
  assumes "map_of (obs_frame obs) (agent_id self) = Some state"
      and "a_goal self = Some g"
      and "cls_get_possible_args new_macro_action state (obs_scenario_map obs) (goal_center g) =
             earlier @ [last_candidate]"
      and "\<not> narrowing_applies Exit new_macro_action (earlier @ [last_candidate])"
  shows "update_macro_action Exit self new_macro_action obs =
           (Inr (), self\<lparr>a_current_macro :=
              Some (cls_new new_macro_action (agent_id self) (obs_frame obs)
                      (obs_scenario_map obs) False last_candidate)\<rparr>)"
  using assms by (simp add: update_macro_action_def Let_def install_candidates_last)

text \<open>
  For \<open>Exit\<close> with two turn targets the narrowing keeps the one closest to the
  goal center.
\<close>

lemma update_macro_action_exit_closest:
  "update_macro_action exit_class fresh_agent exit_class start_observation =
     (Inr (), fresh_agent\<lparr>a_current_macro :=
        Some \<lparr>mi_class = ''Exit'', mi_kwargs = [(''turn_target'', (10, 1))], mi_steps_left = 1\<rparr>\<rparr>)"
  by (simp add: narrowing_applies_def py_isinstance_def py_type_def
        metaclass_subclass_def exit_class_def update_macro_action_def
        start_observation_def fresh_agent_def narrow_to_closest_def turn_targets_def
        east_goal_def euclidean_norm_def point_diff_def make_instance_def)

lemma narrowing_applies_same_metaclass:
  "cls_metaclass c = cls_metaclass Exit \<Longrightarrow>
   narrowing_applies Exit c possible_args = (length possible_args > 1)"
  by (simp add: narrowing_applies_def py_isinstance_def py_type_def metaclass_subclass_def)

text \<open>
  C4 fails on the code. The test \<open>isinstance(new_macro_action, type(ip.Exit))\<close>
  compares metaclasses, and every class that derives from \<open>MacroAction\<close> passes
  it. \<open>Continue\<close> is not an exit maneuver and has two candidates without a
  \<open>turn_target\<close>: the narrowing applies all the same, finds no turn target and
  raises, and no macro action is installed.
\<close>

theorem update_macro_action_narrows_non_exit:
  "\<not> is_exit_maneuver exit_class continue_class \<and>
   length (cls_get_possible_args continue_class start_state (obs_scenario_map start_observation)
             (goal_center east_goal)) = 2 \<and>
   narrowing_applies exit_class continue_class
     (cls_get_possible_args continue_class start_state (obs_scenario_map start_observation)
        (goal_center east_goal)) \<and>
   update_macro_action exit_class fresh_agent continue_class start_observation =
     (Inl ValueError, fresh_agent)"
  by (simp add: is_exit_maneuver_def narrowing_applies_def py_isinstance_def py_type_def
        metaclass_subclass_def exit_class_def continue_class_def update_macro_action_def
        start_observation_def fresh_agent_def narrow_to_closest_def turn_targets_def)


end
